theory Spec2Isabelle
  imports Main "HOL-Library.Sublist"
begin

section \<open>JavaScript string primitives used by the patch engine\<close>

text \<open>
  The engine of \<^verbatim>\<open>src/mcp/server.ts\<close> works on JavaScript strings. They are modelled
  as \<open>string\<close> (lists of characters); the primitives below follow the ECMAScript
  definitions of \<^verbatim>\<open>startsWith\<close>, \<^verbatim>\<open>includes\<close>, \<^verbatim>\<open>split\<close>, \<^verbatim>\<open>join\<close>, \<^verbatim>\<open>trim\<close>,
  \<^verbatim>\<open>toLowerCase\<close> and \<^verbatim>\<open>replace(/\r\n/g, "\n")\<close>.

  A \<open>char\<close> has eight bits: it stands for a UTF-16 code unit from U+0000 to U+00FF,
  the Latin-1 range, and a \<open>string\<close> for a JavaScript string of such code units. White
  space and case folding are the ones of ECMAScript on that range.
\<close>

abbreviation LF :: char where "LF \<equiv> CHR 0x0A"
abbreviation CR :: char where "CR \<equiv> CHR 0x0D"
abbreviation DQ :: char where "DQ \<equiv> CHR 0x22"

text \<open>\<^verbatim>\<open>s.startsWith(p)\<close>\<close>

fun startsWith :: "string \<Rightarrow> string \<Rightarrow> bool" where
  "startsWith s [] = True"
| "startsWith [] (p # ps) = False"
| "startsWith (c # cs) (p # ps) = (c = p \<and> startsWith cs ps)"

text \<open>\<^verbatim>\<open>s.includes(p)\<close>\<close>

fun js_includes :: "string \<Rightarrow> string \<Rightarrow> bool" where
  "js_includes [] p = (p = [])"
| "js_includes (c # cs) p = (startsWith (c # cs) p \<or> js_includes cs p)"

text \<open>\<^verbatim>\<open>s.split(sep)\<close> for a one-character separator: never the empty list.\<close>

fun js_split :: "char \<Rightarrow> string \<Rightarrow> string list" where
  "js_split sep [] = [[]]"
| "js_split sep (c # cs) =
     (if c = sep then [] # js_split sep cs
      else (case js_split sep cs of
              [] \<Rightarrow> [[c]]
            | l # ls \<Rightarrow> (c # l) # ls))"

text \<open>\<^verbatim>\<open>xs.join(sep)\<close>\<close>

fun js_join :: "string \<Rightarrow> string list \<Rightarrow> string" where
  "js_join sep [] = []"
| "js_join sep [x] = x"
| "js_join sep (x # y # ys) = x @ sep @ js_join sep (y # ys)"

text \<open>\<^verbatim>\<open>s.replace(/\r\n/g, "\n")\<close>\<close>

fun replaceCRLF :: "string \<Rightarrow> string" where
  "replaceCRLF [] = []"
| "replaceCRLF [c] = [c]"
| "replaceCRLF (c # d # cs) =
     (if c = CR \<and> d = LF then LF # replaceCRLF cs else c # replaceCRLF (d # cs))"

text \<open>
  The white space and line terminators that \<^verbatim>\<open>trim\<close> strips: tab, line feed, vertical
  tab, form feed, carriage return, space and the no-break space U+00A0. The others of
  ECMAScript (U+FEFF, U+2028, U+2029 and the space separators from U+1680 on) lie
  beyond U+00FF.
\<close>

definition isSpace :: "char \<Rightarrow> bool" where
  "isSpace c =
     (c \<in> set [CHR '' '', CHR 0x09, CHR 0x0A, CHR 0x0B, CHR 0x0C, CHR 0x0D, CHR 0xA0])"

text \<open>\<^verbatim>\<open>s.trim()\<close>\<close>

definition trim :: "string \<Rightarrow> string" where
  "trim s = rev (dropWhile isSpace (rev (dropWhile isSpace s)))"

text \<open>
  The lower-case mapping of Unicode on U+0000 to U+00FF: the letters A to Z, and the
  letters U+00C0 to U+00DE without the multiplication sign U+00D7, move up by 32; every
  other code unit of the range is its own lower case.
\<close>

definition lowerChar :: "char \<Rightarrow> char" where
  "lowerChar c =
     (let n = (of_char c :: nat)
      in if (65 \<le> n \<and> n \<le> 90) \<or> (192 \<le> n \<and> n \<le> 222 \<and> n \<noteq> 215)
         then char_of (n + 32) else c)"

text \<open>\<^verbatim>\<open>s.toLowerCase()\<close>\<close>

definition toLowerCase :: "string \<Rightarrow> string" where
  "toLowerCase s = map lowerChar s"

section \<open>The POSIX flavour of Node's path module\<close>

text \<open>
  \<^verbatim>\<open>withinRoot\<close> calls \<^verbatim>\<open>path.resolve\<close> and \<^verbatim>\<open>path.normalize\<close>, and the applier calls
  \<^verbatim>\<open>path.dirname\<close>. They are modelled after Node's POSIX implementation, segment by
  segment: \<open>normalizeString\<close> drops empty and \<^verbatim>\<open>.\<close> segments and resolves \<^verbatim>\<open>..\<close> against
  the segments kept so far.
\<close>

fun normalizeSegs :: "bool \<Rightarrow> string list \<Rightarrow> string list \<Rightarrow> string list" where
  "normalizeSegs allowAboveRoot res [] = res"
| "normalizeSegs allowAboveRoot res (seg # segs) =
     (if seg = [] \<or> seg = ''.'' then normalizeSegs allowAboveRoot res segs
      else if seg = ''..'' then
        (if res \<noteq> [] \<and> last res \<noteq> ''..'' then normalizeSegs allowAboveRoot (butlast res) segs
         else if allowAboveRoot then normalizeSegs allowAboveRoot (res @ [''..'']) segs
         else normalizeSegs allowAboveRoot res segs)
      else normalizeSegs allowAboveRoot (res @ [seg]) segs)"

definition normalizeString :: "string \<Rightarrow> bool \<Rightarrow> string" where
  "normalizeString p allowAboveRoot = js_join ''/'' (normalizeSegs allowAboveRoot [] (js_split CHR ''/'' p))"

definition isAbsolute :: "string \<Rightarrow> bool" where
  "isAbsolute p = (case p of [] \<Rightarrow> False | c # _ \<Rightarrow> c = CHR ''/'')"

text \<open>
  The loop of \<^verbatim>\<open>path.resolve\<close> walks its arguments from the right, then the working
  directory, and stops at the first absolute one; empty arguments are skipped. The
  argument list is given here right to left, the working directory last, and each
  earlier argument goes in front: \<^verbatim>\<open>resolvedPath = path + "/" + resolvedPath\<close>.
\<close>

fun resolveJoin :: "string list \<Rightarrow> string \<times> bool" where
  "resolveJoin [] = ([], False)"
| "resolveJoin (p # ps) =
     (if p = [] then resolveJoin ps
      else if isAbsolute p then (p @ ''/'', True)
      else (case resolveJoin ps of (r, a) \<Rightarrow> (r @ p @ ''/'', a)))"

definition path_resolve :: "string \<Rightarrow> string list \<Rightarrow> string" where
  "path_resolve cwd args =
     (case resolveJoin (rev args @ [cwd]) of
        (resolvedPath, resolvedAbsolute) \<Rightarrow>
          (let np = normalizeString resolvedPath (\<not> resolvedAbsolute)
           in if resolvedAbsolute then ''/'' @ np
              else if np \<noteq> [] then np else ''.''))"

definition path_normalize :: "string \<Rightarrow> string" where
  "path_normalize p =
     (if p = [] then ''.''
      else let isAbs = isAbsolute p;
               trailingSeparator = (last p = CHR ''/'');
               np = normalizeString p (\<not> isAbs)
           in if np = [] then (if isAbs then ''/'' else if trailingSeparator then ''./'' else ''.'')
              else (if isAbs then ''/'' else []) @ np @ (if trailingSeparator then ''/'' else []))"

text \<open>
  \<^verbatim>\<open>path.dirname\<close>: scanning from the right down to index 1, the trailing separators are
  skipped, then the last segment; \<open>end\<close> is the index of the separator found, if any.
\<close>

definition path_dirname :: "string \<Rightarrow> string" where
  "path_dirname p =
     (if p = [] then ''.''
      else let hasRoot = isAbsolute p;
               r = dropWhile (\<lambda>c. c \<noteq> CHR ''/'') (dropWhile (\<lambda>c. c = CHR ''/'') (rev (tl p)));
               end = length r
           in if r = [] then (if hasRoot then ''/'' else ''.'')
              else if hasRoot \<and> end = 1 then ''//''
              else take end p)"

section \<open>Errors and root-safe path resolution\<close>

datatype io_error = ENOENT | EACCES | EISDIR | ENOTDIR

text \<open>
  Every \<^verbatim>\<open>throw\<close> of the engine is a constructor: the two format errors of the parser,
  the refusal of \<^verbatim>\<open>withinRoot\<close> (with \<^verbatim>\<open>relPath\<close> and \<^verbatim>\<open>ROOT\<close>), the failed read of
  an update, the rejected path of \<^verbatim>\<open>rewrite_file\<close>, and a failure raised by \<^verbatim>\<open>node:fs\<close>.
\<close>

datatype error =
    MissingBegin
  | MissingHeader
  | OutsideRoot string string
  | UpdateNotFound string
  | InvalidRewritePath
  | IOError io_error string

fun io_code :: "io_error \<Rightarrow> string" where
  "io_code ENOENT = ''ENOENT''"
| "io_code EACCES = ''EACCES''"
| "io_code EISDIR = ''EISDIR''"
| "io_code ENOTDIR = ''ENOTDIR''"

text \<open>\<^verbatim>\<open>e.message\<close>; for a \<^verbatim>\<open>node:fs\<close> failure, its code and the path.\<close>

fun message :: "error \<Rightarrow> string" where
  "message MissingBegin = ''Patch missing *** Begin Patch''"
| "message MissingHeader = ''Patch must contain one of Add/Update/Delete headers''"
| "message (OutsideRoot rel root) =
     ''Refusing to write outside root. rel='' @ [DQ] @ rel @ [DQ] @ '', root='' @ [DQ] @ root @ [DQ]"
| "message (UpdateNotFound p) = ''File not found for update: '' @ p"
| "message InvalidRewritePath = ''Missing or invalid 'path' for rewrite_file''"
| "message (IOError e p) = io_code e @ '': '' @ p"

text \<open>
  The taxonomy of the specification: which kind of error a thrown error is.
\<close>

datatype error_kind = FormatError | SecurityError | NotFoundError | IOFailure

fun kind_of :: "error \<Rightarrow> error_kind" where
  "kind_of MissingBegin = FormatError"
| "kind_of MissingHeader = FormatError"
| "kind_of (OutsideRoot _ _) = SecurityError"
| "kind_of (UpdateNotFound _) = NotFoundError"
| "kind_of InvalidRewritePath = FormatError"
| "kind_of (IOError _ _) = IOFailure"

text \<open>
  \<^verbatim>\<open>withinRoot(getRoot, relPath)\<close>. The value \<open>root\<close> is what \<^verbatim>\<open>getRoot()\<close> returns for this
  call and \<open>cwd\<close> is \<^verbatim>\<open>process.cwd()\<close>, which \<^verbatim>\<open>path.resolve\<close> falls back on.
\<close>

definition withinRoot :: "string \<Rightarrow> string \<Rightarrow> string \<Rightarrow> error + string" where
  "withinRoot cwd root relPath =
     (let ROOT = path_resolve cwd [root];
          rel = (if relPath \<noteq> [] \<and> trim relPath \<noteq> [] then relPath else ''.'');
          absPath = path_resolve cwd [ROOT, rel];
          rootNorm = toLowerCase (path_normalize ROOT);
          absNorm = toLowerCase (path_normalize absPath)
      in if \<not> startsWith absNorm rootNorm then Inl (OutsideRoot relPath ROOT)
         else Inr absPath)"

section \<open>Patch types\<close>

datatype line_type = Context | Add | Remove

text \<open>\<^verbatim>\<open>PatchHunkLine\<close>: its \<^verbatim>\<open>type\<close> and its \<^verbatim>\<open>text\<close>.\<close>

datatype PatchHunkLine = HunkLine (ltype: line_type) (ltext: string)

record Range =
  start :: nat
  count :: nat

record PatchHunk =
  oldRange :: Range
  newRange :: Range
  lines :: "PatchHunkLine list"

datatype patch_op = OpAdd | OpUpdate | OpDelete

record ParsedPatch =
  op :: patch_op
  path :: string
  newContent :: "string option"
  hunks :: "PatchHunk list"

section \<open>Parse patch\<close>

text \<open>
  \<^verbatim>\<open>line.replace(pat, "")\<close> with a string pattern: the first occurrence is removed.
\<close>

fun removeFirst :: "string \<Rightarrow> string \<Rightarrow> string" where
  "removeFirst [] pat = []"
| "removeFirst (c # cs) pat =
     (if startsWith (c # cs) pat then drop (length pat) (c # cs) else c # removeFirst cs pat)"

text \<open>
  The header scan: the first line that starts with one of the three headers decides
  \<^verbatim>\<open>op\<close> and \<^verbatim>\<open>filePath\<close>, and the loop breaks there.
\<close>

fun findHeader :: "string list \<Rightarrow> patch_op option \<times> string" where
  "findHeader [] = (None, [])"
| "findHeader (line # rest) =
     (if startsWith line ''*** Add File:'' then
        (Some OpAdd, trim (removeFirst line ''*** Add File:''))
      else if startsWith line ''*** Update File:'' then
        (Some OpUpdate, trim (removeFirst line ''*** Update File:''))
      else if startsWith line ''*** Delete File:'' then
        (Some OpDelete, trim (removeFirst line ''*** Delete File:''))
      else findHeader rest)"

text \<open>The loop that fills \<^verbatim>\<open>contentLines\<close> of an Add patch, one \<^verbatim>\<open>push\<close> per kept line.\<close>

fun addLoop :: "string list \<Rightarrow> string list \<Rightarrow> string list" where
  "addLoop contentLines [] = contentLines"
| "addLoop contentLines (l # ls) =
     (if startsWith l ''+'' \<and> \<not> startsWith l ''+++'' then addLoop (contentLines @ [drop 1 l]) ls
      else addLoop contentLines ls)"

definition addContent :: "string list \<Rightarrow> string" where
  "addContent ls =
     (let contentLines = addLoop [] ls
      in js_join [LF] contentLines @ (if contentLines \<noteq> [] then [LF] else []))"

text \<open>
  The hunk header \<^verbatim>\<open>/^@@ -(\d+),(\d+) \+(\d+),(\d+) @@/\<close>: literals and four greedy,
  non-empty runs of decimal digits, anchored at the start of the line; \<^verbatim>\<open>Number\<close>
  reads a run of digits as a natural number.
\<close>

definition isDigit :: "char \<Rightarrow> bool" where
  "isDigit c = (48 \<le> (of_char c :: nat) \<and> (of_char c :: nat) \<le> 57)"

definition Number :: "string \<Rightarrow> nat" where
  "Number ds = foldl (\<lambda>n c. 10 * n + ((of_char c :: nat) - 48)) 0 ds"

definition literal :: "string \<Rightarrow> string \<Rightarrow> string option" where
  "literal lit s = (if startsWith s lit then Some (drop (length lit) s) else None)"

definition digits :: "string \<Rightarrow> (nat \<times> string) option" where
  "digits s =
     (let ds = takeWhile isDigit s
      in if ds = [] then None else Some (Number ds, dropWhile isDigit s))"

definition hunkHeader :: "string \<Rightarrow> (nat \<times> nat \<times> nat \<times> nat) option" where
  "hunkHeader line =
     Option.bind (literal ''@@ -'' line) (\<lambda>s1.
     Option.bind (digits s1) (\<lambda>(m1, s2).
     Option.bind (literal '','' s2) (\<lambda>s3.
     Option.bind (digits s3) (\<lambda>(m2, s4).
     Option.bind (literal '' +'' s4) (\<lambda>s5.
     Option.bind (digits s5) (\<lambda>(m3, s6).
     Option.bind (literal '','' s6) (\<lambda>s7.
     Option.bind (digits s7) (\<lambda>(m4, s8).
     Option.bind (literal '' @@'' s8) (\<lambda>s9.
       Some (m1, m2, m3, m4))))))))))"

text \<open>\<^verbatim>\<open>if (current) hunks.push(current)\<close>\<close>

definition pushCurrent :: "PatchHunk list \<Rightarrow> PatchHunk option \<Rightarrow> PatchHunk list" where
  "pushCurrent hs current = (case current of None \<Rightarrow> hs | Some h \<Rightarrow> hs @ [h])"

definition pushLine :: "PatchHunk \<Rightarrow> line_type \<Rightarrow> string \<Rightarrow> PatchHunk" where
  "pushLine h t s = h\<lparr>lines := lines h @ [HunkLine t s]\<rparr>"

text \<open>
  The hunk loop of an Update patch over all lines of the patch, with the hunks pushed
  so far and the hunk that is open.
\<close>

fun hunkLoop :: "PatchHunk list \<Rightarrow> PatchHunk option \<Rightarrow> string list \<Rightarrow> PatchHunk list" where
  "hunkLoop hs current [] = pushCurrent hs current"
| "hunkLoop hs current (line # rest) =
     (case hunkHeader line of
        Some (m1, m2, m3, m4) \<Rightarrow>
          hunkLoop (pushCurrent hs current)
            (Some \<lparr>oldRange = \<lparr>start = m1, count = m2\<rparr>,
                   newRange = \<lparr>start = m3, count = m4\<rparr>, lines = []\<rparr>) rest
      | None \<Rightarrow>
          (case current of
             None \<Rightarrow> hunkLoop hs current rest
           | Some h \<Rightarrow>
               if startsWith line ''+'' \<and> \<not> startsWith line ''+++'' then
                 hunkLoop hs (Some (pushLine h Add (drop 1 line))) rest
               else if startsWith line ''-'' \<and> \<not> startsWith line ''---'' then
                 hunkLoop hs (Some (pushLine h Remove (drop 1 line))) rest
               else if \<not> startsWith line ''***'' \<and> \<not> startsWith line ''@@'' then
                 hunkLoop hs (Some (pushLine h Context line)) rest
               else hunkLoop hs current rest))"

text \<open>The lines of the raw patch: \<^verbatim>\<open>raw.replace(/\r\n/g, "\n").split("\n")\<close>.\<close>

definition patchLines :: "string \<Rightarrow> string list" where
  "patchLines raw = js_split LF (replaceCRLF raw)"

text \<open>\<^verbatim>\<open>lines[0]?.includes("*** Begin Patch")\<close>\<close>

definition hasBegin :: "string list \<Rightarrow> bool" where
  "hasBegin ls = (case ls of [] \<Rightarrow> False | l # _ \<Rightarrow> js_includes l ''*** Begin Patch'')"

definition parseSimplifiedPatch :: "string \<Rightarrow> error + ParsedPatch" where
  "parseSimplifiedPatch raw =
     (let ls = patchLines raw
      in if \<not> hasBegin ls then Inl MissingBegin
         else (case findHeader ls of
                 (None, _) \<Rightarrow> Inl MissingHeader
               | (Some opr, filePath) \<Rightarrow>
                   if filePath = [] then Inl MissingHeader
                   else (case opr of
                           OpDelete \<Rightarrow>
                             Inr \<lparr>op = OpDelete, path = filePath, newContent = None, hunks = []\<rparr>
                         | OpAdd \<Rightarrow>
                             Inr \<lparr>op = OpAdd, path = filePath,
                                  newContent = Some (addContent ls), hunks = []\<rparr>
                         | OpUpdate \<Rightarrow>
                             Inr \<lparr>op = OpUpdate, path = filePath, newContent = None,
                                  hunks = hunkLoop [] None ls\<rparr>)))"

section \<open>The file system\<close>

text \<open>
  The engine reaches the disk through four calls of \<^verbatim>\<open>node:fs\<close>: \<^verbatim>\<open>unlink\<close>,
  \<^verbatim>\<open>mkdir(..., {recursive: true})\<close>, \<^verbatim>\<open>writeFile\<close> and \<^verbatim>\<open>readFile\<close>. The disk is a
  map from absolute paths to nodes, with the set of paths whose entry may not be
  changed (permission denied). The root directory \<^verbatim>\<open>/\<close> always exists.
\<close>

datatype node = File string | Dir

record filesystem =
  nodes :: "string \<Rightarrow> node option"
  readonly :: "string set"

definition isDir :: "filesystem \<Rightarrow> string \<Rightarrow> bool" where
  "isDir fs p = (p = ''/'' \<or> nodes fs p = Some Dir)"

definition fs_unlink :: "filesystem \<Rightarrow> string \<Rightarrow> error + filesystem" where
  "fs_unlink fs p =
     (if isDir fs p then Inl (IOError EISDIR p)
      else if nodes fs p = None then Inl (IOError ENOENT p)
      else if p \<in> readonly fs then Inl (IOError EACCES p)
      else Inr (fs\<lparr>nodes := (nodes fs)(p := None)\<rparr>))"

definition fs_readFile :: "filesystem \<Rightarrow> string \<Rightarrow> error + string" where
  "fs_readFile fs p =
     (if isDir fs p then Inl (IOError EISDIR p)
      else (case nodes fs p of
              Some (File c) \<Rightarrow> Inr c
            | _ \<Rightarrow> Inl (IOError ENOENT p)))"

definition fs_writeFile :: "filesystem \<Rightarrow> string \<Rightarrow> string \<Rightarrow> error + filesystem" where
  "fs_writeFile fs p content =
     (if isDir fs p then Inl (IOError EISDIR p)
      else if nodes fs p = None \<and> \<not> isDir fs (path_dirname p) then Inl (IOError ENOENT p)
      else if p \<in> readonly fs then Inl (IOError EACCES p)
      else Inr (fs\<lparr>nodes := (nodes fs)(p \<mapsto> File content)\<rparr>))"

text \<open>
  The directories a recursive \<^verbatim>\<open>mkdir\<close> of \<open>p\<close> walks through, outermost first: \<open>p\<close>
  and the chain of its \<^verbatim>\<open>dirname\<close>s.
\<close>

function ancestors :: "string \<Rightarrow> string list" where
  "ancestors p =
     (if length (path_dirname p) < length p then ancestors (path_dirname p) @ [p] else [p])"
  by pat_completeness auto
termination
  by (relation "measure length") auto

text \<open>
  A recursive \<^verbatim>\<open>mkdir\<close> keeps the directories that exist, creates the missing ones and
  stops at the first entry that is a file or may not be created; the directories it
  created before stay.
\<close>

fun mkdirLoop :: "filesystem \<Rightarrow> string list \<Rightarrow> filesystem \<times> error option" where
  "mkdirLoop fs [] = (fs, None)"
| "mkdirLoop fs (q # qs) =
     (if isDir fs q then mkdirLoop fs qs
      else if nodes fs q \<noteq> None then (fs, Some (IOError ENOTDIR q))
      else if q \<in> readonly fs then (fs, Some (IOError EACCES q))
      else mkdirLoop (fs\<lparr>nodes := (nodes fs)(q \<mapsto> Dir)\<rparr>) qs)"

definition fs_mkdir_recursive :: "filesystem \<Rightarrow> string \<Rightarrow> filesystem \<times> error option" where
  "fs_mkdir_recursive fs p = mkdirLoop fs (ancestors p)"

section \<open>Apply patch\<close>

text \<open>
  \<^verbatim>\<open>Array.prototype.splice(start, deleteCount, ...items)\<close>: a negative start counts
  from the end, and the start and \<open>deleteCount\<close> are clamped to the array.
\<close>

definition splice :: "'a list \<Rightarrow> int \<Rightarrow> nat \<Rightarrow> 'a list \<Rightarrow> 'a list" where
  "splice xs relativeStart deleteCount items =
     (let len = int (length xs);
          actualStart = (if relativeStart < 0 then max (len + relativeStart) 0
                         else min relativeStart len);
          actualDeleteCount = min (max (int deleteCount) 0) (len - actualStart)
      in take (nat actualStart) xs @ items @ drop (nat (actualStart + actualDeleteCount)) xs)"

text \<open>The inner loop of an update: \<^verbatim>\<open>replace.push(ln.text)\<close> for add and context lines.\<close>

fun replaceLoop :: "string list \<Rightarrow> PatchHunkLine list \<Rightarrow> string list" where
  "replaceLoop replace [] = replace"
| "replaceLoop replace (ln # lns) =
     (if ltype ln = Add \<or> ltype ln = Context then replaceLoop (replace @ [ltext ln]) lns
      else replaceLoop replace lns)"

definition applyHunk :: "string list \<Rightarrow> PatchHunk \<Rightarrow> string list" where
  "applyHunk ls h =
     (let start0 = int (start (oldRange h)) - 1;
          replace = replaceLoop [] (lines h)
      in splice ls start0 (count (oldRange h)) replace)"

text \<open>The outer loop \<^verbatim>\<open>for (const h of parsed.hunks)\<close> over the mutable \<^verbatim>\<open>lines\<close>.\<close>

fun applyHunks :: "string list \<Rightarrow> PatchHunk list \<Rightarrow> string list" where
  "applyHunks ls [] = ls"
| "applyHunks ls (h # hs) = applyHunks (applyHunk ls h) hs"

definition updateText :: "string \<Rightarrow> PatchHunk list \<Rightarrow> string" where
  "updateText original hs =
     js_join [LF] (applyHunks (js_split LF (replaceCRLF original)) hs) @ [LF]"

text \<open>
  \<^verbatim>\<open>applyParsedPatch\<close> returns the file system it leaves and the error it threw, if any.
  The \<^verbatim>\<open>catch\<close> of the delete branch swallows every failure of \<^verbatim>\<open>unlink\<close>; the
  \<^verbatim>\<open>catch\<close> of the update branch turns every failure of the read into one error.
\<close>

definition applyParsedPatch ::
  "string \<Rightarrow> string \<Rightarrow> filesystem \<Rightarrow> ParsedPatch \<Rightarrow> filesystem \<times> error option" where
  "applyParsedPatch cwd root fs parsed =
     (case withinRoot cwd root (path parsed) of
        Inl e \<Rightarrow> (fs, Some e)
      | Inr absPath \<Rightarrow>
          (case op parsed of
             OpDelete \<Rightarrow>
               (case fs_unlink fs absPath of Inl e \<Rightarrow> (fs, None) | Inr fs' \<Rightarrow> (fs', None))
           | OpAdd \<Rightarrow>
               (case fs_mkdir_recursive fs (path_dirname absPath) of
                  (fs1, Some e) \<Rightarrow> (fs1, Some e)
                | (fs1, None) \<Rightarrow>
                    (case fs_writeFile fs1 absPath (case newContent parsed of None \<Rightarrow> [] | Some c \<Rightarrow> c) of
                       Inl e \<Rightarrow> (fs1, Some e)
                     | Inr fs2 \<Rightarrow> (fs2, None)))
           | OpUpdate \<Rightarrow>
               (case fs_readFile fs absPath of
                  Inl e \<Rightarrow> (fs, Some (UpdateNotFound (path parsed)))
                | Inr original \<Rightarrow>
                    (case fs_writeFile fs absPath (updateText original (hunks parsed)) of
                       Inl e \<Rightarrow> (fs, Some e)
                     | Inr fs' \<Rightarrow> (fs', None)))))"

definition rewriteFile ::
  "string \<Rightarrow> string \<Rightarrow> filesystem \<Rightarrow> string \<Rightarrow> string \<Rightarrow> filesystem \<times> error option" where
  "rewriteFile cwd root fs pathRel content =
     (case withinRoot cwd root pathRel of
        Inl e \<Rightarrow> (fs, Some e)
      | Inr absPath \<Rightarrow>
          (case fs_mkdir_recursive fs (path_dirname absPath) of
             (fs1, Some e) \<Rightarrow> (fs1, Some e)
           | (fs1, None) \<Rightarrow>
               (case fs_writeFile fs1 absPath content of
                  Inl e \<Rightarrow> (fs1, Some e)
                | Inr fs2 \<Rightarrow> (fs2, None))))"

section \<open>HTTP API\<close>

text \<open>
  The fields of the parsed request body are JSON values; of these the handlers tell
  strings from everything else, and \<^verbatim>\<open>String(patch || "")\<close> reads a patch text off any
  of them. Numbers, arrays and objects are left out: none of them is a patch or a path.
\<close>

datatype jsval = JUndefined | JNull | JBool bool | JStr string

fun patchText :: "jsval \<Rightarrow> string" where
  "patchText (JStr s) = s"
| "patchText (JBool b) = (if b then ''true'' else [])"
| "patchText JNull = []"
| "patchText JUndefined = []"

text \<open>The response body: \<^verbatim>\<open>{ok: true, path, op}\<close> with status 200 or \<^verbatim>\<open>{error}\<close> with status 400.\<close>

datatype response = Success string string | Failure string

fun statusCode :: "response \<Rightarrow> nat" where
  "statusCode (Success _ _) = 200"
| "statusCode (Failure _) = 400"

fun op_name :: "patch_op \<Rightarrow> string" where
  "op_name OpAdd = ''add''"
| "op_name OpUpdate = ''update''"
| "op_name OpDelete = ''delete''"

text \<open>\<^verbatim>\<open>e.message || String(e)\<close>\<close>

definition errorText :: "error \<Rightarrow> string" where
  "errorText e = (if message e \<noteq> [] then message e else ''Error'')"

text \<open>
  The \<^verbatim>\<open>try\<close> block of \<^verbatim>\<open>/mcp/apply_patch\<close>: the file system it leaves, and the error
  caught or the patch applied.
\<close>

definition apply_patch ::
  "string \<Rightarrow> string \<Rightarrow> filesystem \<Rightarrow> jsval \<Rightarrow> filesystem \<times> (error + ParsedPatch)" where
  "apply_patch cwd root fs patch =
     (case parseSimplifiedPatch (patchText patch) of
        Inl e \<Rightarrow> (fs, Inl e)
      | Inr parsed \<Rightarrow>
          (case applyParsedPatch cwd root fs parsed of
             (fs', Some e) \<Rightarrow> (fs', Inl e)
           | (fs', None) \<Rightarrow> (fs', Inr parsed)))"

definition apply_patch_response ::
  "string \<Rightarrow> string \<Rightarrow> filesystem \<Rightarrow> jsval \<Rightarrow> response" where
  "apply_patch_response cwd root fs patch =
     (case snd (apply_patch cwd root fs patch) of
        Inl e \<Rightarrow> Failure (errorText e)
      | Inr parsed \<Rightarrow> Success (path parsed) (op_name (op parsed)))"

text \<open>The \<^verbatim>\<open>try\<close> block of \<^verbatim>\<open>/mcp/rewrite_file\<close>.\<close>

definition rewrite_file ::
  "string \<Rightarrow> string \<Rightarrow> filesystem \<Rightarrow> jsval \<Rightarrow> jsval \<Rightarrow> filesystem \<times> (error + string)" where
  "rewrite_file cwd root fs relPath content =
     (case relPath of
        JStr p \<Rightarrow>
          if trim p = [] then (fs, Inl InvalidRewritePath)
          else (case rewriteFile cwd root fs p (case content of JStr c \<Rightarrow> c | _ \<Rightarrow> []) of
                  (fs', Some e) \<Rightarrow> (fs', Inl e)
                | (fs', None) \<Rightarrow> (fs', Inr p))
      | _ \<Rightarrow> (fs, Inl InvalidRewritePath))"

definition rewrite_file_response ::
  "string \<Rightarrow> string \<Rightarrow> filesystem \<Rightarrow> jsval \<Rightarrow> jsval \<Rightarrow> response" where
  "rewrite_file_response cwd root fs relPath content =
     (case snd (rewrite_file cwd root fs relPath content) of
        Inl e \<Rightarrow> Failure (errorText e)
      | Inr p \<Rightarrow> Success p ''rewrite'')"

section \<open>What the specification says, in its own words\<close>

text \<open>
  The replacement block of a hunk as the specification describes it: the texts of the
  add and context lines in hunk-line order; a remove line contributes nothing.
\<close>

definition spec_replacement :: "PatchHunk \<Rightarrow> string list" where
  "spec_replacement h = map ltext (filter (\<lambda>ln. ltype ln \<noteq> Remove) (lines h))"

text \<open>
  The step of one hunk on the lines it finds. The index is the start of the header less
  one, and not beyond the end of the lines; a start of 0 gives the index \<open>-1\<close>, which
  denotes the last line. From the index on, \<open>count\<close> lines are deleted, or as many as
  there are, and the block is inserted at the index.
\<close>

definition spec_start :: "string list \<Rightarrow> PatchHunk \<Rightarrow> nat" where
  "spec_start ls h =
     (if start (oldRange h) = 0 then length ls - 1
      else min (start (oldRange h) - 1) (length ls))"

definition spec_deleted :: "string list \<Rightarrow> PatchHunk \<Rightarrow> nat" where
  "spec_deleted ls h = min (count (oldRange h)) (length ls - spec_start ls h)"

definition spec_applyHunk :: "string list \<Rightarrow> PatchHunk \<Rightarrow> string list" where
  "spec_applyHunk ls h =
     take (spec_start ls h) ls @ spec_replacement h
       @ drop (spec_start ls h + spec_deleted ls h) ls"

text \<open>
  The content of an added file as the specification describes it: the lines that begin
  with \<^verbatim>\<open>+\<close> but not with \<^verbatim>\<open>+++\<close>, without the leading \<^verbatim>\<open>+\<close>, joined with newline, and one
  trailing newline if there is any such line.
\<close>

definition spec_addContent :: "string list \<Rightarrow> string" where
  "spec_addContent ls =
     (let kept = map (drop 1) (filter (\<lambda>l. startsWith l ''+'' \<and> \<not> startsWith l ''+++'') ls)
      in if kept = [] then [] else js_join [LF] kept @ [LF])"

subsection \<open>Writable targets\<close>

text \<open>
  When \<^verbatim>\<open>rewrite_file\<close> or an Add patch can write \<open>absPath\<close>: it is not a directory
  and not protected, and each directory on the way to it exists or can be created.
\<close>

definition canWrite :: "filesystem \<Rightarrow> string \<Rightarrow> bool" where
  "canWrite fs absPath =
     (\<not> isDir fs absPath \<and> absPath \<notin> readonly fs \<and>
      list_all (\<lambda>q. isDir fs q \<or> (nodes fs q = None \<and> q \<notin> readonly fs))
        (ancestors (path_dirname absPath)))"

section \<open>Scenarios\<close>

text \<open>The workspace of the end-to-end scenario: \<^verbatim>\<open>/ws/a.txt\<close> holds three lines.\<close>

definition ws_fs :: filesystem where
  "ws_fs = \<lparr>nodes = [''/ws'' \<mapsto> Dir,
                     ''/ws/a.txt'' \<mapsto> File (''one'' @ [LF] @ ''two'' @ [LF] @ ''three'' @ [LF])],
           readonly = {}\<rparr>"

text \<open>The same workspace with \<^verbatim>\<open>/ws/a.txt\<close> protected against removal.\<close>

definition ws_fs_protected :: filesystem where
  "ws_fs_protected = ws_fs\<lparr>readonly := {''/ws/a.txt''}\<rparr>"

definition update_patch :: string where
  "update_patch = js_join [LF]
     [''*** Begin Patch'', ''*** Update File: a.txt'', ''@@ -2,1 +2,1 @@'', ''-two'', ''+TWO'',
      ''*** End Patch'']"

definition empty_update_patch :: string where
  "empty_update_patch = js_join [LF]
     [''*** Begin Patch'', ''*** Update File: a.txt'', ''*** End Patch'']"

definition add_patch :: string where
  "add_patch = js_join [LF]
     [''*** Begin Patch'', ''*** Add File: sub/f.txt'', ''+foo'', ''+bar'', ''*** End Patch'']"

definition delete_patch :: "string \<Rightarrow> string" where
  "delete_patch name = js_join [LF]
     [''*** Begin Patch'', ''*** Delete File: '' @ name, ''*** End Patch'']"

text \<open>
  A file of four lines with no newline at its end, and a patch of two hunks written
  against it: the first replaces lines 1 and 2 by one line, the second replaces line 4.
\<close>

definition abcd_fs :: filesystem where
  "abcd_fs = \<lparr>nodes = [''/ws'' \<mapsto> Dir,
                       ''/ws/a.txt'' \<mapsto> File (js_join [LF] [''a'', ''b'', ''c'', ''d''])],
             readonly = {}\<rparr>"

definition shrink_patch :: string where
  "shrink_patch = js_join [LF]
     [''*** Begin Patch'', ''*** Update File: a.txt'',
      ''@@ -1,2 +1,1 @@'', ''-a'', ''-b'', ''+x'',
      ''@@ -4,1 +3,1 @@'', ''-d'', ''+y'',
      ''*** End Patch'']"

definition shrink_first :: PatchHunk where
  "shrink_first =
     \<lparr>oldRange = \<lparr>start = 1, count = 2\<rparr>, newRange = \<lparr>start = 1, count = 1\<rparr>,
      lines = [HunkLine Remove ''a'', HunkLine Remove ''b'', HunkLine Add ''x'']\<rparr>"

definition shrink_second :: PatchHunk where
  "shrink_second =
     \<lparr>oldRange = \<lparr>start = 4, count = 1\<rparr>, newRange = \<lparr>start = 3, count = 1\<rparr>,
      lines = [HunkLine Remove ''d'', HunkLine Add ''y'']\<rparr>"

definition shrink_parsed :: ParsedPatch where
  "shrink_parsed = \<lparr>op = OpUpdate, path = ''a.txt'', newContent = None,
                     hunks = [shrink_first, shrink_second]\<rparr>"

text \<open>A file with carriage-return and newline pairs at the ends of its lines.\<close>

definition crlf_fs :: filesystem where
  "crlf_fs = \<lparr>nodes = [''/ws'' \<mapsto> Dir,
                       ''/ws/a.txt'' \<mapsto> File (''a'' @ [CR, LF] @ ''b'' @ [CR, LF])],
             readonly = {}\<rparr>"

text \<open>What the parser makes of the scenario patches.\<close>

definition add_parsed :: ParsedPatch where
  "add_parsed = \<lparr>op = OpAdd, path = ''sub/f.txt'',
                  newContent = Some (''foo'' @ [LF] @ ''bar'' @ [LF]), hunks = []\<rparr>"

definition delete_parsed :: "string \<Rightarrow> ParsedPatch" where
  "delete_parsed name = \<lparr>op = OpDelete, path = name, newContent = None, hunks = []\<rparr>"

definition empty_update_parsed :: ParsedPatch where
  "empty_update_parsed = \<lparr>op = OpUpdate, path = ''a.txt'', newContent = None, hunks = []\<rparr>"

section \<open>Evaluation\<close>

declare ancestors.simps [simp del]

lemmas string_defs = isSpace_def trim_def lowerChar_def toLowerCase_def

lemmas path_defs =
  normalizeString_def isAbsolute_def path_resolve_def path_normalize_def path_dirname_def
  withinRoot_def

lemmas parse_defs =
  isDigit_def Number_def literal_def digits_def hunkHeader_def pushCurrent_def pushLine_def
  patchLines_def hasBegin_def addContent_def parseSimplifiedPatch_def

lemmas fs_defs =
  isDir_def fs_unlink_def fs_readFile_def fs_writeFile_def fs_mkdir_recursive_def

lemmas apply_defs =
  splice_def applyHunk_def updateText_def applyParsedPatch_def rewriteFile_def
  apply_patch_def apply_patch_response_def rewrite_file_def rewrite_file_response_def
  errorText_def

lemmas scenario_defs =
  ws_fs_def ws_fs_protected_def update_patch_def empty_update_patch_def add_patch_def
  delete_patch_def abcd_fs_def shrink_patch_def shrink_first_def
  shrink_second_def shrink_parsed_def crlf_fs_def

lemmas eval_defs =
  scenario_defs apply_defs parse_defs path_defs string_defs fs_defs canWrite_def
  add_parsed_def delete_parsed_def empty_update_parsed_def
  spec_addContent_def spec_replacement_def spec_start_def spec_deleted_def
  spec_applyHunk_def ancestors.simps

section \<open>Strings and lines\<close>

lemma startsWith_prefix: "startsWith s p \<longleftrightarrow> prefix p s"
  by (induction s p rule: startsWith.induct) auto

lemma js_includes_sublist: "js_includes s p \<longleftrightarrow> sublist p s"
  by (induction s) (auto simp: sublist_Cons_right startsWith_prefix)

lemma js_split_not_Nil: "js_split c s \<noteq> []"
  by (induction s) (auto split: list.splits)

lemma hd_js_split: "hd (js_split c s) = takeWhile (\<lambda>x. x \<noteq> c) s"
  by (induction s) (auto split: list.splits simp: js_split_not_Nil)

lemma firstLine_replaceCRLF_prefix:
  "prefix (takeWhile (\<lambda>x. x \<noteq> LF) (replaceCRLF s)) s"
  by (induction s rule: replaceCRLF.induct) auto

lemma hasBegin_includes:
  assumes "hasBegin (patchLines raw)"
  shows "js_includes raw ''*** Begin Patch''"
proof -
  obtain l ls where split: "patchLines raw = l # ls"
    using js_split_not_Nil [of LF "replaceCRLF raw"] by (cases "patchLines raw") (auto simp: patchLines_def)
  from split have "l = hd (js_split LF (replaceCRLF raw))"
    by (simp add: patchLines_def)
  then have l: "l = takeWhile (\<lambda>x. x \<noteq> LF) (replaceCRLF raw)"
    by (simp add: hd_js_split)
  from assms split have "sublist ''*** Begin Patch'' l"
    by (simp add: hasBegin_def js_includes_sublist)
  moreover have "sublist l raw"
    unfolding l by (rule prefix_imp_sublist) (rule firstLine_replaceCRLF_prefix)
  ultimately have "sublist ''*** Begin Patch'' raw"
    by (rule sublist_order.order.trans)
  then show ?thesis by (simp add: js_includes_sublist)
qed

lemma js_join_js_split: "js_join [c] (js_split c s) = s"
proof (induction s)
  case Nil
  then show ?case by simp
next
  case (Cons x s)
  obtain l ls where "js_split c s = l # ls"
    using js_split_not_Nil [of c s] by (cases "js_split c s") auto
  with Cons show ?case by (cases ls) auto
qed

lemma js_split_snoc: "js_split c (s @ [c]) = js_split c s @ [[]]"
  by (induction s) (auto split: list.splits simp: js_split_not_Nil)

lemma replaceCRLF_append_neq: "replaceCRLF s @ t = s \<Longrightarrow> t = []"
  by (induction s rule: replaceCRLF.induct) (auto split: if_splits)

text \<open>
  Every carriage-return and newline pair becomes a newline, and a text without such a
  pair stays as it is.
\<close>

lemma replaceCRLF_pair:
  "replaceCRLF (a @ [CR, LF] @ b) = replaceCRLF a @ [LF] @ replaceCRLF b"
  by (induction a rule: replaceCRLF.induct) simp_all

lemma replaceCRLF_no_pair: "\<not> js_includes s [CR, LF] \<Longrightarrow> replaceCRLF s = s"
  by (induction s rule: replaceCRLF.induct) auto

section \<open>Hunks and added content\<close>










text \<open>
  A header may give the start 0. The index is then \<open>-1\<close>, which \<^verbatim>\<open>splice\<close> counts from
  the end of the lines: the hunk acts on the last line.
\<close>

lemma applyHunk_start_zero:
  "applyHunk [''a'', ''b'', ''c'']
     \<lparr>oldRange = \<lparr>start = 0, count = 1\<rparr>, newRange = \<lparr>start = 1, count = 1\<rparr>,
      lines = [HunkLine Add ''x'']\<rparr> = [''a'', ''b'', ''x'']"
  by (simp add: applyHunk_def splice_def)

lemma addLoop_filter:
  "addLoop acc ls =
     acc @ map (drop 1) (filter (\<lambda>l. startsWith l ''+'' \<and> \<not> startsWith l ''+++'') ls)"
  by (induction ls arbitrary: acc) simp_all

lemma addContent_spec: "addContent ls = spec_addContent ls"
  by (simp add: addContent_def spec_addContent_def addLoop_filter Let_def)

text \<open>
  Joined with newline and ended by one newline: each kept line is followed by exactly
  one newline, and nothing else is in the content.
\<close>

lemma js_join_newline:
  "js_join [LF] (x # xs) @ [LF] = concat (map (\<lambda>x. x @ [LF]) (x # xs))"
  by (induction xs arbitrary: x) simp_all

lemma spec_addContent_concat:
  "spec_addContent ls =
     concat (map (\<lambda>l. drop 1 l @ [LF])
       (filter (\<lambda>l. startsWith l ''+'' \<and> \<not> startsWith l ''+++'') ls))"
proof -
  let ?kept = "map (drop 1) (filter (\<lambda>l. startsWith l ''+'' \<and> \<not> startsWith l ''+++'') ls)"
  have "spec_addContent ls = concat (map (\<lambda>x. x @ [LF]) ?kept)"
  proof (cases "?kept = []")
    case True
    then show ?thesis by (simp add: spec_addContent_def)
  next
    case False
    then have "js_join [LF] ?kept @ [LF] = concat (map (\<lambda>x. x @ [LF]) ?kept)"
      by (cases ?kept) (simp_all only: js_join_newline)
    with False show ?thesis by (simp add: spec_addContent_def Let_def)
  qed
  then show ?thesis by (simp add: map_map comp_def)
qed

section \<open>Properties of the file system\<close>

lemma read_after_write: "fs_writeFile fs p c = Inr fs' \<Longrightarrow> fs_readFile fs' p = Inr c"
  by (auto simp: fs_writeFile_def fs_readFile_def isDir_def split: if_splits)

lemma write_keeps_isDir: "fs_writeFile fs p c = Inr fs' \<Longrightarrow> isDir fs q \<Longrightarrow> isDir fs' q"
  by (auto simp: fs_writeFile_def isDir_def split: if_splits)

lemma mkdirLoop_readonly: "mkdirLoop fs qs = (fs', r) \<Longrightarrow> readonly fs' = readonly fs"
  by (induction qs arbitrary: fs) (auto split: if_splits)

lemma mkdirLoop_keeps_isDir: "mkdirLoop fs qs = (fs', r) \<Longrightarrow> isDir fs q \<Longrightarrow> isDir fs' q"
proof (induction qs arbitrary: fs)
  case Nil
  then show ?case by simp
next
  case (Cons a qs)
  show ?case
  proof (cases "isDir fs a")
    case True
    with Cons show ?thesis by simp
  next
    case False
    show ?thesis
    proof (cases "nodes fs a = None \<and> a \<notin> readonly fs")
      case True
      let ?fs1 = "fs\<lparr>nodes := (nodes fs)(a \<mapsto> Dir)\<rparr>"
      from Cons.prems(1) False True have "mkdirLoop ?fs1 qs = (fs', r)" by simp
      moreover from Cons.prems(2) have "isDir ?fs1 q" by (auto simp: isDir_def)
      ultimately show ?thesis by (rule Cons.IH)
    next
      case False
      with Cons.prems \<open>\<not> isDir fs a\<close> show ?thesis by (auto split: if_splits)
    qed
  qed
qed

lemma mkdirLoop_all_dirs: "mkdirLoop fs qs = (fs', None) \<Longrightarrow> q \<in> set qs \<Longrightarrow> isDir fs' q"
proof (induction qs arbitrary: fs)
  case Nil
  then show ?case by simp
next
  case (Cons a qs)
  show ?case
  proof (cases "isDir fs a")
    case True
    with Cons.prems have run: "mkdirLoop fs qs = (fs', None)" by simp
    show ?thesis
    proof (cases "q = a")
      case True
      with run \<open>isDir fs a\<close> show ?thesis by (simp add: mkdirLoop_keeps_isDir)
    next
      case False
      with Cons.prems(2) have "q \<in> set qs" by simp
      with run show ?thesis by (rule Cons.IH)
    qed
  next
    case False
    let ?fs1 = "fs\<lparr>nodes := (nodes fs)(a \<mapsto> Dir)\<rparr>"
    from Cons.prems(1) False have run: "mkdirLoop ?fs1 qs = (fs', None)"
      by (auto split: if_splits)
    show ?thesis
    proof (cases "q = a")
      case True
      have "isDir ?fs1 a" by (simp add: isDir_def)
      with run True show ?thesis by (simp add: mkdirLoop_keeps_isDir)
    next
      case False
      with Cons.prems(2) have "q \<in> set qs" by simp
      with run show ?thesis by (rule Cons.IH)
    qed
  qed
qed

lemma mkdirLoop_other: "mkdirLoop fs qs = (fs', r) \<Longrightarrow> p \<notin> set qs \<Longrightarrow> nodes fs' p = nodes fs p"
  by (induction qs arbitrary: fs) (auto split: if_splits)

lemma mkdirLoop_succeeds:
  "list_all (\<lambda>q. isDir fs q \<or> (nodes fs q = None \<and> q \<notin> readonly fs)) qs \<Longrightarrow>
   \<exists>fs'. mkdirLoop fs qs = (fs', None)"
proof (induction qs arbitrary: fs)
  case Nil
  then show ?case by simp
next
  case (Cons a qs)
  show ?case
  proof (cases "isDir fs a")
    case True
    with Cons show ?thesis by simp
  next
    case False
    let ?fs1 = "fs\<lparr>nodes := (nodes fs)(a \<mapsto> Dir)\<rparr>"
    from Cons.prems False have a: "nodes fs a = None" "a \<notin> readonly fs" by auto
    from Cons.prems
    have "list_all (\<lambda>q. isDir ?fs1 q \<or> (nodes ?fs1 q = None \<and> q \<notin> readonly ?fs1)) qs"
      by (auto simp: list_all_iff isDir_def)
    then obtain fs' where "mkdirLoop ?fs1 qs = (fs', None)"
      using Cons.IH by blast
    with False a show ?thesis by (simp add: isDir_def)
  qed
qed

lemma self_in_ancestors: "p \<in> set (ancestors p)"
  by (subst ancestors.simps) simp

lemma ancestors_length: "q \<in> set (ancestors p) \<Longrightarrow> length q \<le> length p"
proof (induction p rule: ancestors.induct)
  case (1 p)
  from "1.prems" have "q = p \<or> (length (path_dirname p) < length p \<and> q \<in> set (ancestors (path_dirname p)))"
    by (subst (asm) ancestors.simps) (auto split: if_splits)
  with "1.IH" show ?case by fastforce
qed

lemma dropWhile_shorter: "dropWhile P xs \<noteq> xs \<Longrightarrow> length (dropWhile P xs) < length xs"
  by (cases xs) (auto simp: le_imp_less_Suc length_dropWhile_le split: if_splits)

lemma path_dirname_absolute:
  "path_dirname (CHR ''/'' # cs) =
     (let r = dropWhile (\<lambda>c. c \<noteq> CHR ''/'') (dropWhile (\<lambda>c. c = CHR ''/'') (rev cs))
      in if r = [] then ''/'' else if length r = 1 then ''//''
         else take (length r) (CHR ''/'' # cs))"
  unfolding path_dirname_def isAbsolute_def
  by (simp only: list.case list.sel list.distinct if_False if_True simp_thms Let_def)

lemma path_dirname_shorter:
  assumes "isAbsolute p" "p \<noteq> ''/''"
  shows "length (path_dirname p) < length p"
proof -
  from assms obtain cs where p: "p = CHR ''/'' # cs" and cs: "cs \<noteq> []"
    by (cases p) (auto simp: isAbsolute_def)
  define r0 where "r0 = dropWhile (\<lambda>c. c = CHR ''/'') (rev cs)"
  define r where "r = dropWhile (\<lambda>c. c \<noteq> CHR ''/'') r0"
  have r0: "length r0 \<le> length cs"
    unfolding r0_def using length_dropWhile_le [of _ "rev cs"] by simp
  have r_le: "length r \<le> length r0"
    unfolding r_def by (rule length_dropWhile_le)
  have strict: "length r < length r0" if "r \<noteq> []"
  proof -
    from that have "hd r = CHR ''/''"
      unfolding r_def using hd_dropWhile [of "\<lambda>c. c \<noteq> CHR ''/''" r0] by auto
    moreover from that r_le have "r0 \<noteq> []" by auto
    then have "hd r0 \<noteq> CHR ''/''"
      unfolding r0_def using hd_dropWhile [of "\<lambda>c. c = CHR ''/''" "rev cs"] by auto
    ultimately have "r \<noteq> r0" by auto
    then show ?thesis unfolding r_def by (rule dropWhile_shorter)
  qed
  have dn: "path_dirname (CHR ''/'' # cs) =
      (if r = [] then ''/'' else if length r = 1 then ''//'' else take (length r) (CHR ''/'' # cs))"
    by (simp only: path_dirname_absolute Let_def r_def r0_def)
  show ?thesis
  proof (cases "r = []")
    case True
    with cs show ?thesis unfolding p dn by (cases cs) simp_all
  next
    case False
    from strict [OF False] r0 have len: "length r < length cs" by simp
    show ?thesis
    proof (cases "length r = 1")
      case True
      with len False show ?thesis unfolding p dn by simp
    next
      case False
      with len \<open>r \<noteq> []\<close> show ?thesis unfolding p dn by simp
    qed
  qed
qed

lemma resolveJoin_absolute: "isAbsolute cwd \<Longrightarrow> snd (resolveJoin (ps @ [cwd]))"
  by (induction ps) (auto simp: isAbsolute_def split: prod.splits list.splits)

lemma path_resolve_absolute: "isAbsolute cwd \<Longrightarrow> isAbsolute (path_resolve cwd args)"
  using resolveJoin_absolute [of cwd "rev args"]
  by (auto simp: path_resolve_def isAbsolute_def Let_def split: prod.splits)

lemma withinRoot_absolute:
  "isAbsolute cwd \<Longrightarrow> withinRoot cwd root rel = Inr absPath \<Longrightarrow> isAbsolute absPath"
  by (auto simp: withinRoot_def Let_def path_resolve_absolute split: if_splits)

lemma mkdir_write_succeeds:
  assumes "canWrite fs absPath" "isAbsolute absPath"
  shows "\<exists>fs1 fs2. fs_mkdir_recursive fs (path_dirname absPath) = (fs1, None)
           \<and> fs_writeFile fs1 absPath c = Inr fs2"
proof -
  let ?d = "path_dirname absPath"
  from assms(1) obtain fs1 where mk: "mkdirLoop fs (ancestors ?d) = (fs1, None)"
    unfolding canWrite_def using mkdirLoop_succeeds by blast
  from assms(1) have notroot: "absPath \<noteq> ''/''"
    by (auto simp: canWrite_def isDir_def)
  with assms(2) have "length ?d < length absPath"
    by (rule path_dirname_shorter)
  then have "absPath \<notin> set (ancestors ?d)"
    using ancestors_length [of absPath ?d] by auto
  with mk have same: "nodes fs1 absPath = nodes fs absPath"
    by (rule mkdirLoop_other)
  from mk have ro: "readonly fs1 = readonly fs"
    by (rule mkdirLoop_readonly)
  from mk have "isDir fs1 ?d"
    by (rule mkdirLoop_all_dirs) (rule self_in_ancestors)
  with assms(1) same ro notroot
  have "\<exists>fs2. fs_writeFile fs1 absPath c = Inr fs2"
    by (auto simp: fs_writeFile_def canWrite_def isDir_def)
  with mk show ?thesis by (auto simp: fs_mkdir_recursive_def)
qed

lemma mkdir_write_result:
  assumes "fs_mkdir_recursive fs (path_dirname absPath) = (fs1, None)"
    and "fs_writeFile fs1 absPath c = Inr fs2"
  shows "fs_readFile fs2 absPath = Inr c \<and> isDir fs2 (path_dirname absPath)"
proof -
  from assms(1) have "isDir fs1 (path_dirname absPath)"
    unfolding fs_mkdir_recursive_def by (rule mkdirLoop_all_dirs) (rule self_in_ancestors)
  with assms(2) have "isDir fs2 (path_dirname absPath)"
    by (rule write_keeps_isDir)
  with assms(2) show ?thesis by (simp add: read_after_write)
qed

lemma path_dirname_root: "path_dirname ''/'' = ''/''"
  by (simp add: path_dirname_def isAbsolute_def)

lemma path_dirname_keeps_absolute: "isAbsolute p \<Longrightarrow> isAbsolute (path_dirname p)"
proof -
  assume "isAbsolute p"
  then obtain cs where p: "p = CHR ''/'' # cs"
    by (cases p) (auto simp: isAbsolute_def)
  define r where
    "r = dropWhile (\<lambda>c. c \<noteq> CHR ''/'') (dropWhile (\<lambda>c. c = CHR ''/'') (rev cs))"
  have dn: "path_dirname (CHR ''/'' # cs) =
      (if r = [] then ''/'' else if length r = 1 then ''//'' else take (length r) (CHR ''/'' # cs))"
    by (simp only: path_dirname_absolute Let_def r_def)
  show ?thesis
  proof (cases "r = []")
    case True
    then show ?thesis unfolding p dn by (simp add: isAbsolute_def)
  next
    case False
    then obtain k where "length r = Suc k" by (cases r) auto
    then show ?thesis unfolding p dn using False by (simp add: isAbsolute_def)
  qed
qed

lemma ancestors_closed:
  "q \<in> set (ancestors p) \<Longrightarrow> isAbsolute q \<Longrightarrow> path_dirname q \<in> set (ancestors p)"
proof (induction p rule: ancestors.induct)
  case (1 p)
  show ?case
  proof (cases "length (path_dirname p) < length p")
    case True
    then have unfold: "ancestors p = ancestors (path_dirname p) @ [p]"
      by (subst ancestors.simps) simp
    show ?thesis
    proof (cases "q = p")
      case True
      then show ?thesis unfolding unfold by (simp add: self_in_ancestors)
    next
      case False
      with "1.prems"(1) have "q \<in> set (ancestors (path_dirname p))"
        unfolding unfold by simp
      with True "1.prems"(2) have "path_dirname q \<in> set (ancestors (path_dirname p))"
        using "1.IH" by blast
      then show ?thesis unfolding unfold by simp
    qed
  next
    case False
    then have unfold: "ancestors p = [p]"
      by (subst ancestors.simps) simp
    with "1.prems"(1) have q: "q = p" by simp
    with "1.prems"(2) False have "p = ''/''"
      using path_dirname_shorter [of p] by blast
    with q show ?thesis unfolding unfold by (simp add: path_dirname_root)
  qed
qed

lemma parents_in_ancestors:
  "isAbsolute p \<Longrightarrow>
   (path_dirname ^^ Suc n) p \<in> set (ancestors (path_dirname p))
   \<and> isAbsolute ((path_dirname ^^ Suc n) p)"
proof (induction n)
  case 0
  then show ?case by (simp add: self_in_ancestors path_dirname_keeps_absolute)
next
  case (Suc n)
  then have "(path_dirname ^^ Suc n) p \<in> set (ancestors (path_dirname p))"
    and "isAbsolute ((path_dirname ^^ Suc n) p)"
    by simp_all
  then have "path_dirname ((path_dirname ^^ Suc n) p) \<in> set (ancestors (path_dirname p))"
    and "isAbsolute (path_dirname ((path_dirname ^^ Suc n) p))"
    by (simp_all only: ancestors_closed path_dirname_keeps_absolute)
  then show ?case by simp
qed

lemma mkdir_write_parents:
  assumes "fs_mkdir_recursive fs (path_dirname absPath) = (fs1, None)"
    and "fs_writeFile fs1 absPath c = Inr fs2"
    and "isAbsolute absPath"
  shows "isDir fs2 ((path_dirname ^^ Suc n) absPath)"
proof -
  from assms(3) have "(path_dirname ^^ Suc n) absPath \<in> set (ancestors (path_dirname absPath))"
    by (simp only: parents_in_ancestors)
  with assms(1) have "isDir fs1 ((path_dirname ^^ Suc n) absPath)"
    unfolding fs_mkdir_recursive_def by (rule mkdirLoop_all_dirs)
  with assms(2) show ?thesis by (rule write_keeps_isDir)
qed

lemma write_existing_file:
  assumes "fs_readFile fs p = Inr original" and "p \<notin> readonly fs"
  shows "fs_writeFile fs p c = Inr (fs\<lparr>nodes := (nodes fs)(p \<mapsto> File c)\<rparr>)"
  using assms
  by (auto simp: fs_readFile_def fs_writeFile_def split: if_splits option.splits node.splits)

section \<open>Root containment\<close>

text \<open>
  C1. Containment asks that a resolved path is the root or lies below the root followed
  by a separator. The check of \<^verbatim>\<open>withinRoot\<close> is a string prefix test: with the root
  \<^verbatim>\<open>/a/b\<close>, the relative path \<^verbatim>\<open>../bc/evil\<close> resolves to \<^verbatim>\<open>/a/bc/evil\<close> and is accepted,
  although that path is neither the root nor below \<^verbatim>\<open>/a/b/\<close>.
\<close>

theorem withinRoot_accepts_sibling_prefix:
  "withinRoot cwd ''/a/b'' ''../bc/evil'' = Inr ''/a/bc/evil''
   \<and> ''/a/bc/evil'' \<noteq> ''/a/b''
   \<and> \<not> startsWith ''/a/bc/evil'' ''/a/b/''"
  by (simp add: path_defs string_defs)

section \<open>The end-to-end scenario\<close>

text \<open>
  C2. In the workspace \<^verbatim>\<open>/ws\<close>, where \<^verbatim>\<open>a.txt\<close> holds the lines one, two, three, each ended
  by a newline, the patch that replaces line 2 by TWO is answered with
  \<^verbatim>\<open>{ok: true, path: "a.txt", op: "update"}\<close>, but the file it leaves ends with two
  newlines: the empty string after the last newline of the original is a line of its
  own, and one more newline is appended after the join.
\<close>

theorem scenario_update_appends_newline:
  "apply_patch_response cwd ''/ws'' ws_fs (JStr update_patch) = Success ''a.txt'' ''update''
   \<and> fs_readFile (fst (apply_patch cwd ''/ws'' ws_fs (JStr update_patch))) ''/ws/a.txt''
       = Inr (''one'' @ [LF] @ ''TWO'' @ [LF] @ ''three'' @ [LF, LF])"
  by (simp add: scenario_defs apply_defs parse_defs path_defs string_defs fs_defs)

section \<open>Updates\<close>




section \<open>Added files\<close>

text \<open>
  C4. The content of an Add patch is the specification's: the lines of the patch that
  begin with \<^verbatim>\<open>+\<close> but not with \<^verbatim>\<open>+++\<close>, in source order and without the leading \<^verbatim>\<open>+\<close>,
  joined with newline, with one trailing newline if there is any such line and empty
  otherwise. Where the path resolves under the root and can be written, applying the
  patch succeeds and leaves exactly this content in the file.
\<close>

theorem add_patch_content:
  assumes "parseSimplifiedPatch (patchText patch) = Inr parsed" and "op parsed = OpAdd"
  shows "newContent parsed = Some (spec_addContent (patchLines (patchText patch)))
         \<and> (withinRoot cwd root (path parsed) = Inr absPath \<and> isAbsolute cwd \<and> canWrite fs absPath
              \<longrightarrow> (\<exists>fs'. apply_patch cwd root fs patch = (fs', Inr parsed)
                     \<and> fs_readFile fs' absPath
                          = Inr (spec_addContent (patchLines (patchText patch)))))"
proof -
  let ?c = "spec_addContent (patchLines (patchText patch))"
  from assms have nc: "newContent parsed = Some ?c"
    by (auto simp: parseSimplifiedPatch_def Let_def addContent_spec
        split: if_splits prod.splits option.splits patch_op.splits)
  have "\<exists>fs'. apply_patch cwd root fs patch = (fs', Inr parsed) \<and> fs_readFile fs' absPath = Inr ?c"
    if wr: "withinRoot cwd root (path parsed) = Inr absPath"
      and cwd: "isAbsolute cwd" and cw: "canWrite fs absPath"
  proof -
    from cwd wr have "isAbsolute absPath" by (rule withinRoot_absolute)
    with cw obtain fs1 fs2 where
      mk: "fs_mkdir_recursive fs (path_dirname absPath) = (fs1, None)"
      and w: "fs_writeFile fs1 absPath ?c = Inr fs2"
      using mkdir_write_succeeds by blast
    from mk w have "fs_readFile fs2 absPath = Inr ?c"
      by (simp add: mkdir_write_result)
    moreover from assms wr nc mk w have "apply_patch cwd root fs patch = (fs2, Inr parsed)"
      by (simp add: apply_patch_def applyParsedPatch_def)
    ultimately show ?thesis by blast
  qed
  with nc show ?thesis by blast
qed

theorem add_patch_content_witness:
  "parseSimplifiedPatch (patchText (JStr add_patch)) = Inr add_parsed
   \<and> op add_parsed = OpAdd
   \<and> newContent add_parsed = Some (''foo'' @ [LF] @ ''bar'' @ [LF])
   \<and> (\<exists>fs'. apply_patch ''/home'' ''/ws'' ws_fs (JStr add_patch) = (fs', Inr add_parsed)
            \<and> fs_readFile fs' ''/ws/sub/f.txt'' = Inr (''foo'' @ [LF] @ ''bar'' @ [LF]))"
proof -
  have p: "parseSimplifiedPatch (patchText (JStr add_patch)) = Inr add_parsed"
    by (simp add: eval_defs)
  have o: "op add_parsed = OpAdd"
    by (simp add: add_parsed_def)
  have c: "spec_addContent (patchLines (patchText (JStr add_patch))) = ''foo'' @ [LF] @ ''bar'' @ [LF]"
    by (simp add: eval_defs)
  have w: "withinRoot ''/home'' ''/ws'' (path add_parsed) = Inr ''/ws/sub/f.txt''"
    by (simp add: eval_defs)
  have a: "isAbsolute ''/home''"
    by (simp add: isAbsolute_def)
  have cw: "canWrite ws_fs ''/ws/sub/f.txt''"
    by (simp add: eval_defs)
  from add_patch_content [OF p o, of "''/home''" "''/ws''" "''/ws/sub/f.txt''" ws_fs] p o c w a cw
  show ?thesis by simp
qed

section \<open>Malformed patches\<close>

text \<open>
  C5. A patch text without the marker \<^verbatim>\<open>*** Begin Patch\<close>, or with the marker anywhere
  but on its first line, is rejected with the format error of the missing marker; the
  response is \<^verbatim>\<open>{error: "Patch missing *** Begin Patch"}\<close> and the file system is
  the one before the request.
\<close>

theorem apply_patch_missing_begin:
  assumes "\<not> js_includes (patchText patch) ''*** Begin Patch''
           \<or> \<not> hasBegin (patchLines (patchText patch))"
  shows "apply_patch cwd root fs patch = (fs, Inl MissingBegin)
         \<and> kind_of MissingBegin = FormatError
         \<and> apply_patch_response cwd root fs patch = Failure ''Patch missing *** Begin Patch''"
proof -
  from assms have "\<not> hasBegin (patchLines (patchText patch))"
    using hasBegin_includes by blast
  then have "parseSimplifiedPatch (patchText patch) = Inl MissingBegin"
    by (simp add: parseSimplifiedPatch_def)
  then show ?thesis
    by (simp add: apply_patch_def apply_patch_response_def errorText_def)
qed

theorem apply_patch_missing_begin_witness:
  "\<not> js_includes (patchText (JStr ''*** Delete File: a.txt'')) ''*** Begin Patch''
   \<and> apply_patch ''/home'' ''/ws'' ws_fs (JStr ''*** Delete File: a.txt'')
       = (ws_fs, Inl MissingBegin)
   \<and> apply_patch_response ''/home'' ''/ws'' ws_fs (JStr ''*** Delete File: a.txt'')
       = Failure ''Patch missing *** Begin Patch''"
proof -
  have n: "\<not> js_includes (patchText (JStr ''*** Delete File: a.txt'')) ''*** Begin Patch''"
    by simp
  then have "\<not> js_includes (patchText (JStr ''*** Delete File: a.txt'')) ''*** Begin Patch''
       \<or> \<not> hasBegin (patchLines (patchText (JStr ''*** Delete File: a.txt'')))"
    by (rule disjI1)
  from apply_patch_missing_begin [OF this, of "''/home''" "''/ws''" ws_fs] n
  show ?thesis by simp
qed

section \<open>Deleting\<close>

text \<open>
  C6. A Delete patch whose path resolves under the root to a file that does not exist
  succeeds: the file system stays as it is and the response is
  \<^verbatim>\<open>{ok: true, path, op: "delete"}\<close>.
\<close>

theorem delete_missing_file_succeeds:
  assumes "parseSimplifiedPatch (patchText patch) = Inr parsed" and "op parsed = OpDelete"
    and "withinRoot cwd root (path parsed) = Inr absPath"
    and "nodes fs absPath = None"
  shows "apply_patch cwd root fs patch = (fs, Inr parsed)
         \<and> apply_patch_response cwd root fs patch = Success (path parsed) ''delete''"
proof -
  from assms(4) have "isl (fs_unlink fs absPath)"
    by (simp add: fs_unlink_def)
  with assms(1-3) have "apply_patch cwd root fs patch = (fs, Inr parsed)"
    by (auto simp: apply_patch_def applyParsedPatch_def split: sum.splits)
  with assms(2) show ?thesis
    by (simp add: apply_patch_response_def)
qed

theorem delete_missing_file_succeeds_witness:
  "parseSimplifiedPatch (patchText (JStr (delete_patch ''gone.txt''))) = Inr (delete_parsed ''gone.txt'')
   \<and> nodes ws_fs ''/ws/gone.txt'' = None
   \<and> apply_patch ''/home'' ''/ws'' ws_fs (JStr (delete_patch ''gone.txt''))
       = (ws_fs, Inr (delete_parsed ''gone.txt''))
   \<and> apply_patch_response ''/home'' ''/ws'' ws_fs (JStr (delete_patch ''gone.txt''))
       = Success ''gone.txt'' ''delete''"
proof -
  have p: "parseSimplifiedPatch (patchText (JStr (delete_patch ''gone.txt'')))
             = Inr (delete_parsed ''gone.txt'')"
    by (simp add: eval_defs)
  have o: "op (delete_parsed ''gone.txt'') = OpDelete"
    by (simp add: delete_parsed_def)
  have w: "withinRoot ''/home'' ''/ws'' (path (delete_parsed ''gone.txt'')) = Inr ''/ws/gone.txt''"
    by (simp add: eval_defs)
  have n: "nodes ws_fs ''/ws/gone.txt'' = None"
    by (simp add: ws_fs_def)
  from delete_missing_file_succeeds [OF p o w n] p n show ?thesis
    by (simp add: delete_parsed_def)
qed

text \<open>
  C7, as the claim states it, fails: with \<^verbatim>\<open>/ws/a.txt\<close> protected, \<^verbatim>\<open>unlink\<close> is refused
  with \<^verbatim>\<open>EACCES\<close>, yet the request reports success and the file stays.
\<close>

theorem delete_reports_success_on_denied_unlink:
  "fs_unlink ws_fs_protected ''/ws/a.txt'' = Inl (IOError EACCES ''/ws/a.txt'')
   \<and> apply_patch ''/home'' ''/ws'' ws_fs_protected (JStr (delete_patch ''a.txt''))
       = (ws_fs_protected, Inr (delete_parsed ''a.txt''))
   \<and> apply_patch_response ''/home'' ''/ws'' ws_fs_protected (JStr (delete_patch ''a.txt''))
       = Success ''a.txt'' ''delete''"
  by (simp add: eval_defs)

text \<open>
  C7, amended. The delete branch catches every failure of \<^verbatim>\<open>unlink\<close>, whatever its
  cause: the file system stays as it is and the response is
  \<^verbatim>\<open>{ok: true, path, op: "delete"}\<close>.
\<close>

theorem delete_swallows_unlink_failure:
  assumes "parseSimplifiedPatch (patchText patch) = Inr parsed" and "op parsed = OpDelete"
    and "withinRoot cwd root (path parsed) = Inr absPath"
    and "fs_unlink fs absPath = Inl e"
  shows "apply_patch cwd root fs patch = (fs, Inr parsed)
         \<and> apply_patch_response cwd root fs patch = Success (path parsed) ''delete''"
proof -
  from assms have "apply_patch cwd root fs patch = (fs, Inr parsed)"
    by (simp add: apply_patch_def applyParsedPatch_def)
  with assms(2) show ?thesis
    by (simp add: apply_patch_response_def)
qed

theorem delete_swallows_unlink_failure_witness:
  "parseSimplifiedPatch (patchText (JStr (delete_patch ''a.txt''))) = Inr (delete_parsed ''a.txt'')
   \<and> fs_unlink ws_fs_protected ''/ws/a.txt'' = Inl (IOError EACCES ''/ws/a.txt'')
   \<and> fst (apply_patch ''/home'' ''/ws'' ws_fs_protected (JStr (delete_patch ''a.txt'')))
       = ws_fs_protected
   \<and> apply_patch_response ''/home'' ''/ws'' ws_fs_protected (JStr (delete_patch ''a.txt''))
       = Success ''a.txt'' ''delete''"
proof -
  have p: "parseSimplifiedPatch (patchText (JStr (delete_patch ''a.txt'')))
             = Inr (delete_parsed ''a.txt'')"
    by (simp add: eval_defs)
  have o: "op (delete_parsed ''a.txt'') = OpDelete"
    by (simp add: delete_parsed_def)
  have w: "withinRoot ''/home'' ''/ws'' (path (delete_parsed ''a.txt'')) = Inr ''/ws/a.txt''"
    by (simp add: eval_defs)
  have u: "fs_unlink ws_fs_protected ''/ws/a.txt'' = Inl (IOError EACCES ''/ws/a.txt'')"
    by (simp add: eval_defs)
  from delete_swallows_unlink_failure [OF p o w u] p u show ?thesis
    by (simp add: delete_parsed_def)
qed

section \<open>Rewriting a file\<close>

text \<open>
  C8. \<^verbatim>\<open>rewrite_file\<close> rejects a path that is missing, not a string or blank (nothing
  but white space, the no-break space included) with the error
  \<^verbatim>\<open>Missing or invalid 'path' for rewrite_file\<close> and leaves the file system alone. For a
  path that is not blank, resolves under the root and can be written, it succeeds: the
  file at the resolved path holds the supplied content verbatim, or the empty string
  when the content is absent or not a string; every directory above the file, its
  parent, the parent of that and so on, exists afterwards; and the response is
  \<^verbatim>\<open>{ok: true, path, op: "rewrite"}\<close>.
\<close>

theorem rewrite_file_contract:
  "((\<forall>p. relPath \<noteq> JStr p) \<or> (\<exists>p. relPath = JStr p \<and> trim p = []) \<longrightarrow>
      rewrite_file cwd root fs relPath content = (fs, Inl InvalidRewritePath)
      \<and> rewrite_file_response cwd root fs relPath content
          = Failure ''Missing or invalid 'path' for rewrite_file'')
   \<and> (relPath = JStr p \<and> trim p \<noteq> [] \<and> withinRoot cwd root p = Inr absPath
        \<and> isAbsolute cwd \<and> canWrite fs absPath \<longrightarrow>
      (\<exists>fs'. rewrite_file cwd root fs relPath content = (fs', Inr p)
             \<and> fs_readFile fs' absPath = Inr (case content of JStr c \<Rightarrow> c | _ \<Rightarrow> [])
             \<and> (\<forall>n. isDir fs' ((path_dirname ^^ Suc n) absPath)))
      \<and> rewrite_file_response cwd root fs relPath content = Success p ''rewrite'')"
proof -
  have rejected: "rewrite_file cwd root fs relPath content = (fs, Inl InvalidRewritePath)
      \<and> rewrite_file_response cwd root fs relPath content
          = Failure ''Missing or invalid 'path' for rewrite_file''"
    if "(\<forall>p. relPath \<noteq> JStr p) \<or> (\<exists>p. relPath = JStr p \<and> trim p = [])"
  proof -
    from that have "rewrite_file cwd root fs relPath content = (fs, Inl InvalidRewritePath)"
      by (cases relPath) (auto simp: rewrite_file_def)
    then show ?thesis
      by (simp add: rewrite_file_response_def errorText_def)
  qed
  have written: "(\<exists>fs'. rewrite_file cwd root fs relPath content = (fs', Inr p)
             \<and> fs_readFile fs' absPath = Inr (case content of JStr c \<Rightarrow> c | _ \<Rightarrow> [])
             \<and> (\<forall>n. isDir fs' ((path_dirname ^^ Suc n) absPath)))
      \<and> rewrite_file_response cwd root fs relPath content = Success p ''rewrite''"
    if rp: "relPath = JStr p" and nb: "trim p \<noteq> []"
      and wr: "withinRoot cwd root p = Inr absPath"
      and cwd: "isAbsolute cwd" and cw: "canWrite fs absPath"
  proof -
    let ?c = "case content of JStr c \<Rightarrow> c | _ \<Rightarrow> []"
    from cwd wr have ab: "isAbsolute absPath" by (rule withinRoot_absolute)
    with cw obtain fs1 fs2 where
      mk: "fs_mkdir_recursive fs (path_dirname absPath) = (fs1, None)"
      and w: "fs_writeFile fs1 absPath ?c = Inr fs2"
      using mkdir_write_succeeds by blast
    from rp nb wr mk w have run: "rewrite_file cwd root fs relPath content = (fs2, Inr p)"
      by (simp add: rewrite_file_def rewriteFile_def)
    moreover from mk w have "fs_readFile fs2 absPath = Inr ?c"
      by (simp add: mkdir_write_result)
    moreover from mk w ab have "\<forall>n. isDir fs2 ((path_dirname ^^ Suc n) absPath)"
      using mkdir_write_parents by blast
    moreover from run have "rewrite_file_response cwd root fs relPath content = Success p ''rewrite''"
      by (simp add: rewrite_file_response_def)
    ultimately show ?thesis by blast
  qed
  from rejected written show ?thesis by blast
qed

theorem rewrite_file_contract_witness:
  "fs_readFile ws_fs ''/ws/a.txt'' = Inr (''one'' @ [LF] @ ''two'' @ [LF] @ ''three'' @ [LF])
   \<and> (\<exists>fs'. rewrite_file ''/home'' ''/ws'' ws_fs (JStr ''a.txt'') (JStr []) = (fs', Inr ''a.txt'')
            \<and> fs_readFile fs' ''/ws/a.txt'' = Inr [])
   \<and> rewrite_file_response ''/home'' ''/ws'' ws_fs (JStr ''a.txt'') (JStr []) = Success ''a.txt'' ''rewrite''
   \<and> (\<exists>fs'. rewrite_file ''/home'' ''/ws'' ws_fs (JStr ''x/y/z.txt'') JNull = (fs', Inr ''x/y/z.txt'')
            \<and> fs_readFile fs' ''/ws/x/y/z.txt'' = Inr []
            \<and> isDir fs' ''/ws/x/y'' \<and> isDir fs' ''/ws/x'' \<and> isDir fs' ''/ws'')
   \<and> nodes ws_fs ''/ws/x'' = None
   \<and> rewrite_file ''/home'' ''/ws'' ws_fs (JStr ''  '') (JStr ''x'') = (ws_fs, Inl InvalidRewritePath)
   \<and> rewrite_file ''/home'' ''/ws'' ws_fs (JStr [CHR 0xA0]) (JStr ''x'') = (ws_fs, Inl InvalidRewritePath)
   \<and> rewrite_file ''/home'' ''/ws'' ws_fs JUndefined (JStr ''x'') = (ws_fs, Inl InvalidRewritePath)"
proof -
  have r: "fs_readFile ws_fs ''/ws/a.txt'' = Inr (''one'' @ [LF] @ ''two'' @ [LF] @ ''three'' @ [LF])"
    by (simp add: eval_defs)
  have a: "isAbsolute ''/home''"
    by (simp add: isAbsolute_def)
  have t: "trim ''a.txt'' \<noteq> []"
    by (simp add: string_defs)
  have w: "withinRoot ''/home'' ''/ws'' ''a.txt'' = Inr ''/ws/a.txt''"
    by (simp add: eval_defs)
  have cw: "canWrite ws_fs ''/ws/a.txt''"
    by (simp add: eval_defs)
  from rewrite_file_contract
    [of "JStr ''a.txt''" "''/home''" "''/ws''" ws_fs "JStr []" "''a.txt''" "''/ws/a.txt''"]
    t w a cw
  have ok: "(\<exists>fs'. rewrite_file ''/home'' ''/ws'' ws_fs (JStr ''a.txt'') (JStr []) = (fs', Inr ''a.txt'')
            \<and> fs_readFile fs' ''/ws/a.txt'' = Inr [])
      \<and> rewrite_file_response ''/home'' ''/ws'' ws_fs (JStr ''a.txt'') (JStr []) = Success ''a.txt'' ''rewrite''"
    by auto
  have t2: "trim ''x/y/z.txt'' \<noteq> []"
    by (simp add: string_defs)
  have w2: "withinRoot ''/home'' ''/ws'' ''x/y/z.txt'' = Inr ''/ws/x/y/z.txt''"
    by (simp add: eval_defs)
  have cw2: "canWrite ws_fs ''/ws/x/y/z.txt''"
    by (simp add: eval_defs)
  have d1: "(path_dirname ^^ Suc 0) ''/ws/x/y/z.txt'' = ''/ws/x/y''"
    by (simp add: path_dirname_def isAbsolute_def)
  have d2: "(path_dirname ^^ Suc (Suc 0)) ''/ws/x/y/z.txt'' = ''/ws/x''"
    by (simp add: path_dirname_def isAbsolute_def)
  have d3: "(path_dirname ^^ Suc (Suc (Suc 0))) ''/ws/x/y/z.txt'' = ''/ws''"
    by (simp add: path_dirname_def isAbsolute_def)
  from rewrite_file_contract
    [of "JStr ''x/y/z.txt''" "''/home''" "''/ws''" ws_fs JNull "''x/y/z.txt''" "''/ws/x/y/z.txt''"]
    t2 w2 a cw2
  obtain fs' where deep:
    "rewrite_file ''/home'' ''/ws'' ws_fs (JStr ''x/y/z.txt'') JNull = (fs', Inr ''x/y/z.txt'')"
    "fs_readFile fs' ''/ws/x/y/z.txt'' = Inr []"
    "\<forall>n. isDir fs' ((path_dirname ^^ Suc n) ''/ws/x/y/z.txt'')"
    by auto
  from deep(3) have "isDir fs' ((path_dirname ^^ Suc 0) ''/ws/x/y/z.txt'')"
    and "isDir fs' ((path_dirname ^^ Suc (Suc 0)) ''/ws/x/y/z.txt'')"
    and "isDir fs' ((path_dirname ^^ Suc (Suc (Suc 0))) ''/ws/x/y/z.txt'')"
    by blast+
  then have dirs: "isDir fs' ''/ws/x/y''" "isDir fs' ''/ws/x''" "isDir fs' ''/ws''"
    by (simp_all only: d1 d2 d3)
  have missing_dir: "nodes ws_fs ''/ws/x'' = None"
    by (simp add: ws_fs_def)
  have b: "trim ''  '' = []"
    by (simp add: string_defs)
  from rewrite_file_contract [of "JStr ''  ''" "''/home''" "''/ws''" ws_fs "JStr ''x''"] b
  have blank: "rewrite_file ''/home'' ''/ws'' ws_fs (JStr ''  '') (JStr ''x'') = (ws_fs, Inl InvalidRewritePath)"
    by auto
  have nb: "trim [CHR 0xA0] = []"
    by (simp add: string_defs)
  from rewrite_file_contract [of "JStr [CHR 0xA0]" "''/home''" "''/ws''" ws_fs "JStr ''x''"] nb
  have nbsp: "rewrite_file ''/home'' ''/ws'' ws_fs (JStr [CHR 0xA0]) (JStr ''x'') = (ws_fs, Inl InvalidRewritePath)"
    by auto
  from rewrite_file_contract [of JUndefined "''/home''" "''/ws''" ws_fs "JStr ''x''"]
  have missing: "rewrite_file ''/home'' ''/ws'' ws_fs JUndefined (JStr ''x'') = (ws_fs, Inl InvalidRewritePath)"
    by auto
  from r ok deep(1,2) dirs missing_dir blank nbsp missing show ?thesis by blast
qed

section \<open>Updates without hunks\<close>

text \<open>
  C9. An update whose target can be read and written writes back the join of the lines
  the hunks leave, with one newline appended. Without hunks that is the original with
  each carriage-return and newline pair turned into a newline, followed by one more
  newline: never the original again, but its lines with one empty line more. Every such
  pair is converted, whatever stands before and after it; a text without a pair comes
  back with the newline appended and is otherwise unchanged.
\<close>

theorem update_without_hunks_appends_line:
  assumes "parseSimplifiedPatch (patchText patch) = Inr parsed" and "op parsed = OpUpdate"
    and "withinRoot cwd root (path parsed) = Inr absPath"
    and "fs_readFile fs absPath = Inr original" and "absPath \<notin> readonly fs"
  shows "apply_patch cwd root fs patch =
           (fs\<lparr>nodes := (nodes fs)(absPath \<mapsto> File (updateText original (hunks parsed)))\<rparr>,
            Inr parsed)
         \<and> (hunks parsed = [] \<longrightarrow>
              updateText original (hunks parsed) = replaceCRLF original @ [LF]
              \<and> updateText original (hunks parsed) \<noteq> original
              \<and> js_split LF (updateText original (hunks parsed))
                  = js_split LF (replaceCRLF original) @ [[]])
         \<and> (hunks parsed = [] \<and> \<not> js_includes original [CR, LF] \<longrightarrow>
              updateText original (hunks parsed) = original @ [LF])
         \<and> (\<forall>a b. replaceCRLF (a @ [CR, LF] @ b) = replaceCRLF a @ [LF] @ replaceCRLF b)
         \<and> (\<forall>a b. updateText (a @ [CR, LF] @ b) [] = replaceCRLF a @ [LF] @ replaceCRLF b @ [LF])
         \<and> updateText (''a'' @ [CR, LF] @ ''b'' @ [CR, LF]) [] = ''a'' @ [LF] @ ''b'' @ [LF, LF]"
proof -
  from assms(4,5)
  have "fs_writeFile fs absPath (updateText original (hunks parsed)) =
          Inr (fs\<lparr>nodes := (nodes fs)(absPath \<mapsto> File (updateText original (hunks parsed)))\<rparr>)"
    by (rule write_existing_file)
  with assms(1-4)
  have run: "apply_patch cwd root fs patch =
           (fs\<lparr>nodes := (nodes fs)(absPath \<mapsto> File (updateText original (hunks parsed)))\<rparr>,
            Inr parsed)"
    by (simp add: apply_patch_def applyParsedPatch_def)
  have upd: "updateText s [] = replaceCRLF s @ [LF]" for s
    by (simp add: updateText_def js_join_js_split)
  have neq: "replaceCRLF original @ [LF] \<noteq> original"
    using replaceCRLF_append_neq [of original "[LF]"] by auto
  have same: "updateText original [] = original @ [LF]" if "\<not> js_includes original [CR, LF]"
    using that by (simp add: upd replaceCRLF_no_pair)
  have pair: "updateText (a @ [CR, LF] @ b) [] = replaceCRLF a @ [LF] @ replaceCRLF b @ [LF]"
    for a b
    by (simp only: upd replaceCRLF_pair append_assoc)
  have inst: "updateText (''a'' @ [CR, LF] @ ''b'' @ [CR, LF]) [] = ''a'' @ [LF] @ ''b'' @ [LF, LF]"
    by (simp add: upd)
  have c2: "hunks parsed = [] \<longrightarrow>
              updateText original (hunks parsed) = replaceCRLF original @ [LF]
              \<and> updateText original (hunks parsed) \<noteq> original
              \<and> js_split LF (updateText original (hunks parsed))
                  = js_split LF (replaceCRLF original) @ [[]]"
    using upd [of original] neq by (auto simp: js_split_snoc)
  have c3: "hunks parsed = [] \<and> \<not> js_includes original [CR, LF] \<longrightarrow>
              updateText original (hunks parsed) = original @ [LF]"
    using same by auto
  have c4: "\<forall>a b. replaceCRLF (a @ [CR, LF] @ b) = replaceCRLF a @ [LF] @ replaceCRLF b"
    by (intro allI) (rule replaceCRLF_pair)
  have c5: "\<forall>a b. updateText (a @ [CR, LF] @ b) [] = replaceCRLF a @ [LF] @ replaceCRLF b @ [LF]"
    by (intro allI) (rule pair)
  show ?thesis
    by (intro conjI run c2 c3 c4 c5 inst)
qed

theorem update_without_hunks_appends_line_witness:
  "parseSimplifiedPatch (patchText (JStr empty_update_patch)) = Inr empty_update_parsed
   \<and> hunks empty_update_parsed = []
   \<and> fs_readFile crlf_fs ''/ws/a.txt'' = Inr (''a'' @ [CR, LF] @ ''b'' @ [CR, LF])
   \<and> fs_readFile (fst (apply_patch ''/home'' ''/ws'' crlf_fs (JStr empty_update_patch))) ''/ws/a.txt''
       = Inr (''a'' @ [LF] @ ''b'' @ [LF, LF])
   \<and> fs_readFile ws_fs ''/ws/a.txt'' = Inr (''one'' @ [LF] @ ''two'' @ [LF] @ ''three'' @ [LF])
   \<and> fs_readFile (fst (apply_patch ''/home'' ''/ws'' ws_fs (JStr empty_update_patch))) ''/ws/a.txt''
       = Inr (''one'' @ [LF] @ ''two'' @ [LF] @ ''three'' @ [LF, LF])"
proof -
  have p: "parseSimplifiedPatch (patchText (JStr empty_update_patch)) = Inr empty_update_parsed"
    by (simp add: eval_defs)
  have o: "op empty_update_parsed = OpUpdate"
    by (simp add: empty_update_parsed_def)
  have w: "withinRoot ''/home'' ''/ws'' (path empty_update_parsed) = Inr ''/ws/a.txt''"
    by (simp add: eval_defs)
  have h: "hunks empty_update_parsed = []"
    by (simp add: empty_update_parsed_def)
  have r1: "fs_readFile crlf_fs ''/ws/a.txt'' = Inr (''a'' @ [CR, LF] @ ''b'' @ [CR, LF])"
    by (simp add: eval_defs)
  have n1: "''/ws/a.txt'' \<notin> readonly crlf_fs"
    by (simp add: crlf_fs_def)
  have c1: "replaceCRLF (''a'' @ [CR, LF] @ ''b'' @ [CR, LF]) = ''a'' @ [LF] @ ''b'' @ [LF]"
    by simp
  from update_without_hunks_appends_line [OF p o w r1 n1] h c1
  have crlf: "fs_readFile (fst (apply_patch ''/home'' ''/ws'' crlf_fs (JStr empty_update_patch)))
                ''/ws/a.txt'' = Inr (''a'' @ [LF] @ ''b'' @ [LF, LF])"
    by (simp add: fs_readFile_def isDir_def)
  have r2: "fs_readFile ws_fs ''/ws/a.txt'' = Inr (''one'' @ [LF] @ ''two'' @ [LF] @ ''three'' @ [LF])"
    by (simp add: eval_defs)
  have n2: "''/ws/a.txt'' \<notin> readonly ws_fs"
    by (simp add: ws_fs_def)
  have c2: "\<not> js_includes (''one'' @ [LF] @ ''two'' @ [LF] @ ''three'' @ [LF]) [CR, LF]"
    by simp
  from update_without_hunks_appends_line [OF p o w r2 n2] h c2
  have lf: "fs_readFile (fst (apply_patch ''/home'' ''/ws'' ws_fs (JStr empty_update_patch)))
              ''/ws/a.txt'' = Inr (''one'' @ [LF] @ ''two'' @ [LF] @ ''three'' @ [LF, LF])"
    by (simp add: fs_readFile_def isDir_def)
  from p h r1 crlf r2 lf show ?thesis by simp
qed

section \<open>Case folding\<close>

text \<open>
  C10. The comparison of \<^verbatim>\<open>withinRoot\<close> is made on the lower-cased normalized root and
  the lower-cased normalized candidate, whatever the platform: the call fails exactly
  when the lower-cased candidate does not start with the lower-cased root. So with the
  root \<^verbatim>\<open>/A/B\<close> a path that resolves to \<^verbatim>\<open>/a/b/x\<close> is accepted, although \<^verbatim>\<open>/a/b/x\<close> does
  not start with \<^verbatim>\<open>/A/B\<close>.
\<close>

theorem withinRoot_case_folded:
  "isl (withinRoot cwd root rel) =
     (\<not> startsWith
          (toLowerCase (path_normalize (path_resolve cwd
             [path_resolve cwd [root], if rel \<noteq> [] \<and> trim rel \<noteq> [] then rel else ''.''])))
          (toLowerCase (path_normalize (path_resolve cwd [root]))))
   \<and> withinRoot cwd ''/A/B'' ''../../a/b/x'' = Inr ''/a/b/x''
   \<and> \<not> startsWith ''/a/b/x'' ''/A/B''"
proof -
  have "isl (withinRoot cwd root rel) =
     (\<not> startsWith
          (toLowerCase (path_normalize (path_resolve cwd
             [path_resolve cwd [root], if rel \<noteq> [] \<and> trim rel \<noteq> [] then rel else ''.''])))
          (toLowerCase (path_normalize (path_resolve cwd [root]))))"
    by (simp add: withinRoot_def Let_def)
  moreover have "withinRoot cwd ''/A/B'' ''../../a/b/x'' = Inr ''/a/b/x''"
    by code_simp
  ultimately show ?thesis by simp
qed

end
